theory Spec2Isabelle
  imports Main "HOL-Library.Sublist" "HOL-Library.Word"
begin

section \<open>go-catch: the poll, filter, render and write pipeline of cmd/catch/main.go\<close>

text \<open>
  The program polls the MySQL process list in an endless loop, filters the rows, and
  writes every remaining row to a daily file and to the terminal. This theory embeds
  \<^verbatim>\<open>formatProcessOutput\<close>, \<^verbatim>\<open>isMonitoringQuery\<close> and the body of the \<^verbatim>\<open>for\<close> loop of
  \<^verbatim>\<open>main\<close>. Everything the loop reads from outside (the clock, the result of opening the
  file, the rows or the error of the query, the result of every write to the file, the
  global colour switch of the colour library, the Unicode tables of the standard
  library) is an explicit argument; everything it does to the outside (terminal lines,
  the bytes the file takes, the sleep) is recorded in the state it returns.
\<close>

subsection \<open>Strings\<close>

text \<open>
  A Go string is a sequence of bytes, here a \<^typ>\<open>char list\<close>.
  \<^verbatim>\<open>strings.Contains(s, substr)\<close> holds when \<^verbatim>\<open>substr\<close> occurs in \<^verbatim>\<open>s\<close> as a contiguous
  block of bytes.
\<close>

definition Contains :: "string \<Rightarrow> string \<Rightarrow> bool" where
  "Contains s substr = sublist substr s"

text \<open>
  \<^verbatim>\<open>strings.ToLower\<close>. When every byte of the string is below \<^verbatim>\<open>utf8.RuneSelf\<close> (128) the
  library adds \<^verbatim>\<open>'a' - 'A'\<close> to the bytes from \<^verbatim>\<open>'A'\<close> to \<^verbatim>\<open>'Z'\<close>; otherwise it returns
  \<^verbatim>\<open>Map(unicode.ToLower, s)\<close>, which decodes the runes and looks them up in the Unicode
  tables. The tables are not part of the program: that second branch is the argument
  \<open>U\<close>, and what is proved for every \<open>U\<close> holds for the library's.
\<close>

definition lower_byte :: "char \<Rightarrow> char" where
  "lower_byte c =
     (if (65::nat) \<le> of_char c \<and> of_char c \<le> (90::nat)
      then char_of (of_char c + (32::nat)) else c)"

definition isASCII :: "string \<Rightarrow> bool" where
  "isASCII s = list_all (\<lambda>c. of_char c < (128::nat)) s"

definition ToLower :: "(string \<Rightarrow> string) \<Rightarrow> string \<Rightarrow> string" where
  "ToLower U s = (if isASCII s then map lower_byte s else U s)"

text \<open>The verb \<^verbatim>\<open>%d\<close> of \<^verbatim>\<open>fmt.Sprintf\<close>: decimal digits, with a minus sign below zero.\<close>

fun digits :: "nat \<Rightarrow> string" where
  "digits n =
     (if n < 10 then [''0123456789'' ! n]
      else digits (n div 10) @ [''0123456789'' ! (n mod 10)])"

declare digits.simps [simp del]

definition fmt_d :: "int \<Rightarrow> string" where
  "fmt_d i = (if i < 0 then CHR ''-'' # digits (nat (- i)) else digits (nat i))"

text \<open>\<^verbatim>\<open>strings.Join\<close>.\<close>

fun Join :: "string list \<Rightarrow> string \<Rightarrow> string" where
  "Join [] sep = []"
| "Join [x] sep = x"
| "Join (x # y # ys) sep = x @ sep @ Join (y # ys) sep"

subsection \<open>Session records\<close>

text \<open>\<^verbatim>\<open>sql.NullString\<close> and \<^verbatim>\<open>Process\<close>. \<^verbatim>\<open>ID\<close> is an \<^verbatim>\<open>int64\<close>; \<^verbatim>\<open>Time\<close> is an \<^verbatim>\<open>int\<close>, taken
  as 64 bits wide. Both are only ever printed.\<close>

record NullString =
  String :: string
  Valid :: bool

record Process =
  ID :: "64 word"
  User :: string
  Host :: string
  DB :: NullString
  Command :: string
  Time :: "64 word"
  State :: NullString
  Info :: NullString

subsection \<open>The colour library (github.com/fatih/color)\<close>

text \<open>
  A \<^verbatim>\<open>*color.Color\<close> made by \<^verbatim>\<open>color.New\<close> is its list of attributes. The function returned
  by \<^verbatim>\<open>SprintFunc\<close> wraps its argument in the escape sequence that selects the attributes
  and the one that resets them, unless the package variable \<^verbatim>\<open>color.NoColor\<close> is set.
  The library sets that variable at start-up when the standard output is not a terminal,
  when \<^verbatim>\<open>TERM\<close> is \<^verbatim>\<open>dumb\<close> or when \<^verbatim>\<open>NO_COLOR\<close> is set; the program never assigns it. It is
  the argument \<open>NoColor\<close> below. The reset sequence is the one of release 1.16 and later
  (one reset code per attribute); earlier releases print a single \<^verbatim>\<open>0\<close>, which is the same
  for every colour without \<^verbatim>\<open>Bold\<close>.
\<close>

datatype Attribute = Bold | FgRed | FgGreen | FgYellow | FgBlue | FgMagenta | FgCyan

type_synonym Color = "Attribute list"

fun attr_code :: "Attribute \<Rightarrow> nat" where
  "attr_code Bold = 1"
| "attr_code FgRed = 31"
| "attr_code FgGreen = 32"
| "attr_code FgYellow = 33"
| "attr_code FgBlue = 34"
| "attr_code FgMagenta = 35"
| "attr_code FgCyan = 36"

fun reset_code :: "Attribute \<Rightarrow> nat" where
  "reset_code Bold = 22"
| "reset_code a = 0"

definition escape :: char where
  "escape = CHR 0x1B"

definition sequence :: "Color \<Rightarrow> string" where
  "sequence c = Join (map (\<lambda>a. digits (attr_code a)) c) '';''"

definition format :: "Color \<Rightarrow> string" where
  "format c = escape # ''['' @ sequence c @ ''m''"

definition unformat :: "Color \<Rightarrow> string" where
  "unformat c = escape # ''['' @ Join (map (\<lambda>a. digits (reset_code a)) c) '';'' @ ''m''"

definition wrap :: "bool \<Rightarrow> Color \<Rightarrow> string \<Rightarrow> string" where
  "wrap NoColor c s = (if NoColor then s else format c @ s @ unformat c)"

subsection \<open>formatProcessOutput\<close>

text \<open>
  The keyword tests of the \<^verbatim>\<open>switch\<close> (its third to seventh case): the statement text is
  lower-cased and tested for the keywords in the order of the cases. The source has no
  function of its own for this; \<open>classify\<close> is that part of the \<^verbatim>\<open>switch\<close>, and
  \<open>emphasis\<close> below reaches it after the two tests of the state.
\<close>

datatype category = CatSelect | CatInsert | CatUpdate | CatDelete | CatDDL | CatUnknown

definition classify :: "(string \<Rightarrow> string) \<Rightarrow> string \<Rightarrow> category" where
  "classify U info =
     (if Contains (ToLower U info) ''select'' then CatSelect
      else if Contains (ToLower U info) ''insert'' then CatInsert
      else if Contains (ToLower U info) ''update'' then CatUpdate
      else if Contains (ToLower U info) ''delete'' then CatDelete
      else if Contains (ToLower U info) ''create'' \<or>
              Contains (ToLower U info) ''alter'' \<or>
              Contains (ToLower U info) ''drop'' then CatDDL
      else CatUnknown)"

text \<open>
  The colours \<^verbatim>\<open>(stateColor, infoColor)\<close> after the \<^verbatim>\<open>if useColor { switch ... }\<close>: both start
  as yellow and cyan, and the first case that matches assigns one or both.
\<close>

definition emphasis :: "(string \<Rightarrow> string) \<Rightarrow> Process \<Rightarrow> bool \<Rightarrow> Color \<times> Color" where
  "emphasis U p useColor =
     (if useColor then
        if String (State p) = ''login'' then ([FgRed], [FgCyan])
        else if String (State p) = ''Receiving from client'' then ([FgBlue], [FgCyan])
        else case classify U (String (Info p)) of
          CatSelect \<Rightarrow>
            ([FgGreen],
             if Contains (ToLower U (String (Info p))) ''count(*)'' then [FgMagenta, Bold]
             else if Contains (ToLower U (String (Info p))) ''limit'' then [FgGreen, Bold]
             else [FgCyan, Bold])
        | CatInsert \<Rightarrow> ([FgYellow], [FgGreen, Bold])
        | CatUpdate \<Rightarrow> ([FgYellow], [FgYellow, Bold])
        | CatDelete \<Rightarrow> ([FgYellow], [FgRed, Bold])
        | CatDDL \<Rightarrow> ([FgYellow], [FgMagenta, Bold])
        | CatUnknown \<Rightarrow> ([FgYellow], [FgCyan])
      else ([FgYellow], [FgCyan]))"

definition newline :: char where
  "newline = CHR 0x0A"

text \<open>The banner line; \<open>timestamp\<close> is \<^verbatim>\<open>time.Now()\<close> in the layout \<^verbatim>\<open>2006-01-02 15:04:05\<close>.\<close>

definition header :: "string \<Rightarrow> string" where
  "header timestamp =
     ''*************************** Process Info @ '' @ timestamp @
     '' ***************************'' @ [newline]"

text \<open>The six fields that are printed as they are.\<close>

definition plain_fields :: "Process \<Rightarrow> string" where
  "plain_fields p =
     ''       ID: '' @ fmt_d (sint (ID p)) @ [newline] @
     ''     USER: '' @ User p @ [newline] @
     ''     HOST: '' @ Host p @ [newline] @
     ''       DB: '' @ String (DB p) @ [newline] @
     ''  COMMAND: '' @ Command p @ [newline] @
     ''     TIME: '' @ fmt_d (sint (Time p)) @ [newline]"

definition formatProcessOutput ::
  "(string \<Rightarrow> string) \<Rightarrow> bool \<Rightarrow> string \<Rightarrow> Process \<Rightarrow> bool \<Rightarrow> string" where
  "formatProcessOutput U NoColor timestamp p useColor =
     (let stateColor = fst (emphasis U p useColor);
          infoColor = snd (emphasis U p useColor)
      in header timestamp @ plain_fields p @
         ''    STATE: '' @ wrap NoColor stateColor (String (State p)) @ [newline] @
         ''     INFO: '' @ wrap NoColor infoColor (String (Info p)) @ [newline, newline])"

subsection \<open>The filter\<close>

definition quote :: char where
  "quote = CHR 0x27"

definition isMonitoringQuery :: "string \<Rightarrow> bool" where
  "isMonitoringQuery info =
     (Contains info ''FROM information_schema.processlist'' \<and>
      Contains info (''WHERE command != '' @ [quote] @ ''Sleep'' @ [quote]))"

text \<open>The local \<^verbatim>\<open>isQuery\<close> of the loop body: the tests are on the text as it is.\<close>

definition isQuery :: "string \<Rightarrow> bool" where
  "isQuery info =
     (Contains info ''select'' \<or> Contains info ''insert'' \<or> Contains info ''update'' \<or>
      Contains info ''delete'' \<or> Contains info ''create'' \<or> Contains info ''alter'' \<or>
      Contains info ''drop'')"

record flags =
  fileFlag :: string
  sleepFlag :: int
  queryFlag :: bool
  debugFlag :: bool
  verboseFlag :: bool

text \<open>
  The two \<^verbatim>\<open>continue\<close> statements at the head of the loop body, in their order: the
  program's own query unless in debug mode, then everything that is not a query in
  queries-only mode. Nothing happens between them, so they are one test.
\<close>

definition skipped :: "flags \<Rightarrow> Process \<Rightarrow> bool" where
  "skipped fl p =
     (if \<not> debugFlag fl \<and> isMonitoringQuery (String (Info p)) then True
      else if queryFlag fl \<and> \<not> isQuery (String (Info p)) then True
      else False)"

subsection \<open>The buffered writer (bufio.Writer on the output file)\<close>

text \<open>
  \<^verbatim>\<open>bufio.NewWriter(file)\<close> has a buffer of 4096 bytes. The writer keeps the bytes not yet
  passed to the file, and the first error of the file: once set, no later call passes
  anything on, and every later call returns that error. The writer is made anew in every
  cycle. \<open>wcalls\<close> counts the calls made on the file and \<open>wfile\<close> collects the bytes the
  file has taken, both since the writer was made.
\<close>

record writer =
  wbuf :: string
  werr :: "string option"
  wcalls :: nat
  wfile :: string

definition NewWriter :: writer where
  "NewWriter = \<lparr>wbuf = [], werr = None, wcalls = 0, wfile = []\<rparr>"

definition Available :: "writer \<Rightarrow> nat" where
  "Available w = 4096 - length (wbuf w)"

text \<open>
  What the file does with the calls of one cycle is read from outside: \<open>fio k\<close> is
  \<open>None\<close> when call \<open>k\<close> on the file succeeds, and \<open>Some (n, err)\<close> when it fails with \<open>err\<close>
  after taking \<open>n\<close> of the bytes. \<open>file_Write\<close> is \<^verbatim>\<open>(*os.File).Write\<close> and
  \<^verbatim>\<open>(*os.File).WriteString\<close>: it returns the number of bytes taken and the error.
\<close>

type_synonym file_io = "nat \<Rightarrow> (nat \<times> string) option"

definition file_Write :: "file_io \<Rightarrow> writer \<Rightarrow> string \<Rightarrow> writer \<times> nat \<times> string option" where
  "file_Write fio w d =
     (case fio (wcalls w) of
        None \<Rightarrow> (w\<lparr>wcalls := Suc (wcalls w), wfile := wfile w @ d\<rparr>, length d, None)
      | Some (n, err) \<Rightarrow>
          (w\<lparr>wcalls := Suc (wcalls w), wfile := wfile w @ take n d\<rparr>,
           min n (length d), Some err))"

text \<open>
  \<^verbatim>\<open>(*Writer).Flush\<close>: nothing happens after an error or with an empty buffer; otherwise
  the buffer is passed to the file, and on an error the bytes not taken stay in the
  buffer and the error is kept. Its result is the \<open>werr\<close> of the writer it leaves.
\<close>

definition Flush :: "file_io \<Rightarrow> writer \<Rightarrow> writer" where
  "Flush fio w =
     (if werr w \<noteq> None then w
      else if wbuf w = [] then w
      else case file_Write fio w (wbuf w) of
             (w1, n, None) \<Rightarrow> w1\<lparr>wbuf := []\<rparr>
           | (w1, n, Some err) \<Rightarrow> w1\<lparr>wbuf := drop n (wbuf w), werr := Some err\<rparr>)"

text \<open>
  The loop of \<^verbatim>\<open>(*Writer).WriteString\<close> as it stands in the current releases of Go. It
  runs while the string does not fit into the buffer and no error is set: with an empty
  buffer the whole string is passed to the file (an \<^verbatim>\<open>*os.File\<close> is an
  \<^verbatim>\<open>io.StringWriter\<close>), otherwise the buffer is filled up and flushed. It returns the
  writer and the part of the string not yet dealt with. A string that fits is only put
  into the buffer: a write of a row of less than 4096 bytes into a new writer cannot
  fail, and an error of the file then shows at a later write or at the final flush.
\<close>

function WriteString_loop :: "file_io \<Rightarrow> writer \<Rightarrow> string \<Rightarrow> writer \<times> string" where
  "WriteString_loop fio w s =
     (if length s > Available w \<and> werr w = None then
        if wbuf w = [] then
          case file_Write fio w s of
            (w1, n, err) \<Rightarrow> WriteString_loop fio (w1\<lparr>werr := err\<rparr>) (drop n s)
        else
          WriteString_loop fio
            (Flush fio (w\<lparr>wbuf := wbuf w @ take (min (Available w) (length s)) s\<rparr>))
            (drop (min (Available w) (length s)) s)
      else (w, s))"
  by pat_completeness auto

termination WriteString_loop
proof (relation "measure (\<lambda>(fio, w, s).
         if werr w = None then 2 * length s + (if wbuf w = [] then 0 else 1) else 0)",
       goal_cases)
  case 1
  show ?case by simp
next
  case (2 fio w s x y z n)
  then show ?case
    by (auto simp: file_Write_def split: option.splits prod.splits)
next
  case (3 fio w s)
  then show ?case
    by (auto simp: Flush_def file_Write_def split: option.splits prod.splits)
qed

declare WriteString_loop.simps [simp del]

text \<open>
  \<^verbatim>\<open>(*Writer).WriteString\<close>: after the loop the kept error is returned if there is one,
  otherwise the rest of the string is put into the buffer.
\<close>

definition WriteString :: "file_io \<Rightarrow> writer \<Rightarrow> string \<Rightarrow> writer \<times> string option" where
  "WriteString fio w s =
     (case WriteString_loop fio w s of
        (w1, s1) \<Rightarrow>
          if werr w1 \<noteq> None then (w1, werr w1)
          else (w1\<lparr>wbuf := wbuf w1 @ s1\<rparr>, None))"

subsection \<open>One row of the batch\<close>

text \<open>
  What the program prints on the terminal, one value per call of a print function, with
  the arguments of the call. The rendered row is kept as the bytes printed; the layout
  of the diagnostic lines is not modelled.
\<close>

datatype printed =
    PollError string
  | Verbose string string "64 word" string
  | DebugQuery "64 word" string string "64 word"
  | WriteError string
  | Print string
  | Stats "64 word"

text \<open>
  The state of the loop: the counter and the time of the last report, the terminal, the
  writer of the current cycle, the files closed so far (name and the bytes the file took
  in that cycle) and the sleeps so far. \<^verbatim>\<open>queryCount\<close> is an \<^verbatim>\<open>int\<close>, taken as 64 bits wide;
  instants and durations are nanoseconds.
\<close>

record state =
  queryCount :: "64 word"
  lastCheck :: int
  console :: "printed list"
  writer :: writer
  files :: "(string \<times> string) list"
  sleeps :: "int list"

text \<open>
  What one iteration over a row reads from outside: the clock at the two calls of
  \<^verbatim>\<open>formatProcessOutput\<close>.
\<close>

record row_io =
  file_stamp :: string
  console_stamp :: string

text \<open>The line of the verbose mode, with the kind of query it names.\<close>

definition queryType :: "(string \<Rightarrow> string) \<Rightarrow> string \<Rightarrow> string" where
  "queryType U info =
     (if Contains (ToLower U info) ''select'' then ''SELECT''
      else if Contains (ToLower U info) ''show'' then ''SHOW''
      else ''unknown'')"

definition verbose_line :: "(string \<Rightarrow> string) \<Rightarrow> flags \<Rightarrow> Process \<Rightarrow> state \<Rightarrow> state" where
  "verbose_line U fl p st =
     (if verboseFlag fl
      then st\<lparr>console := console st @
             [Verbose (queryType U (String (Info p))) (String (State p)) (Time p)
                (String (Info p))]\<rparr>
      else st)"

text \<open>
  The counter of the debug mode: the test is on the statement as it is, and the counter
  is incremented before the line is printed.
\<close>

definition counts :: "string \<Rightarrow> bool" where
  "counts info =
     (Contains info ''select'' \<or> Contains info ''count('' \<or> Contains info ''limit'')"

definition debug_count :: "flags \<Rightarrow> Process \<Rightarrow> state \<Rightarrow> state" where
  "debug_count fl p st =
     (if debugFlag fl \<and> counts (String (Info p))
      then st\<lparr>queryCount := queryCount st + 1,
              console := console st @
                [DebugQuery (queryCount st + 1) (String (Info p)) (String (State p))
                   (Time p)]\<rparr>
      else st)"

text \<open>
  The plain rendering is passed to the writer; when \<^verbatim>\<open>WriteString\<close> returns an error the
  error is printed and the loop goes on to the next row with \<^verbatim>\<open>continue\<close>, otherwise the
  rendering with colours is printed.
\<close>

definition write_and_print ::
  "(string \<Rightarrow> string) \<Rightarrow> bool \<Rightarrow> file_io \<Rightarrow> row_io \<Rightarrow> Process \<Rightarrow> state \<Rightarrow> state" where
  "write_and_print U NoColor fio io p st =
     (let fileOutput = formatProcessOutput U NoColor (file_stamp io) p False
      in case WriteString fio (writer st) fileOutput of
           (w, Some err) \<Rightarrow> st\<lparr>writer := w, console := console st @ [WriteError err]\<rparr>
         | (w, None) \<Rightarrow>
             st\<lparr>writer := w,
                console := console st @
                  [Print (formatProcessOutput U NoColor (console_stamp io) p True)]\<rparr>)"

text \<open>The body of the loop over the rows.\<close>

definition process_row ::
  "(string \<Rightarrow> string) \<Rightarrow> flags \<Rightarrow> bool \<Rightarrow> file_io \<Rightarrow> row_io \<Rightarrow> state \<Rightarrow> Process
     \<Rightarrow> state" where
  "process_row U fl NoColor fio io st p =
     (if skipped fl p then st
      else write_and_print U NoColor fio io p (debug_count fl p (verbose_line U fl p st)))"

text \<open>\<^verbatim>\<open>for _, p := range processes\<close>; \<open>io i\<close> is what the iteration over row \<open>i\<close> reads.\<close>

fun process_rows ::
  "(string \<Rightarrow> string) \<Rightarrow> flags \<Rightarrow> bool \<Rightarrow> file_io \<Rightarrow> (nat \<Rightarrow> row_io) \<Rightarrow> nat \<Rightarrow> state
     \<Rightarrow> Process list \<Rightarrow> state" where
  "process_rows U fl NoColor fio io i st [] = st"
| "process_rows U fl NoColor fio io i st (p # ps) =
     process_rows U fl NoColor fio io (Suc i) (process_row U fl NoColor fio (io i) st p) ps"

subsection \<open>One cycle of the loop\<close>

text \<open>
  What one cycle reads from outside: the date, the error of \<^verbatim>\<open>os.OpenFile\<close> if any, the
  result of \<^verbatim>\<open>getProcessList\<close>, the reads of the rows, what the file does with the writes,
  and the clock at the test of the report and at the assignment to \<^verbatim>\<open>lastCheck\<close>.
\<close>

record cycle_io =
  date :: string
  open_err :: "string option"
  poll :: "string + Process list"
  rows_io :: "nat \<Rightarrow> row_io"
  file_io :: file_io
  now_check :: int
  now_reset :: int

datatype 'a outcome = Panic string | Next 'a

definition filename :: "flags \<Rightarrow> string \<Rightarrow> string" where
  "filename fl d =
     (if fileFlag fl \<noteq> [] then fileFlag fl @ ''-'' @ d @ ''.txt''
      else ''load_test-'' @ d @ ''.txt'')"

text \<open>\<^verbatim>\<open>time.Since(lastCheck) > 5*time.Second\<close>, then the report and the reset.\<close>

definition report :: "flags \<Rightarrow> cycle_io \<Rightarrow> state \<Rightarrow> state" where
  "report fl cio st =
     (if debugFlag fl \<and> now_check cio - lastCheck st > 5 * 1000000000
      then st\<lparr>console := console st @ [Stats (queryCount st)],
              queryCount := 0,
              lastCheck := now_reset cio\<rparr>
      else st)"

text \<open>
  The body of \<^verbatim>\<open>for { ... }\<close>. A failed open panics. A failed query prints the error,
  closes the file and goes on to the next iteration with \<^verbatim>\<open>continue\<close>. Otherwise the rows
  are processed, the report is made when due, the writer is flushed, the file is closed
  and the program sleeps. The result of \<^verbatim>\<open>Flush\<close> is not looked at: nothing is printed
  when it fails, and the file then has taken only part of what was buffered.
\<close>

definition cycle ::
  "(string \<Rightarrow> string) \<Rightarrow> flags \<Rightarrow> bool \<Rightarrow> cycle_io \<Rightarrow> state \<Rightarrow> state outcome" where
  "cycle U fl NoColor cio st =
     (case open_err cio of
        Some err \<Rightarrow> Panic err
      | None \<Rightarrow>
          (case poll cio of
             Inl err \<Rightarrow>
               Next (st\<lparr>writer := NewWriter, console := console st @ [PollError err]\<rparr>)
           | Inr processes \<Rightarrow>
               (let st1 = process_rows U fl NoColor (file_io cio) (rows_io cio) 0
                            (st\<lparr>writer := NewWriter\<rparr>) processes;
                    st2 = report fl cio st1;
                    w = Flush (file_io cio) (writer st2)
                in Next (st2\<lparr>writer := w,
                             files := files st2 @ [(filename fl (date cio), wfile w)],
                             sleeps := sleeps st2 @ [sleepFlag fl]\<rparr>))))"

text \<open>The first iterations of the loop, one per element of the list; a panic ends it.\<close>

fun cycles ::
  "(string \<Rightarrow> string) \<Rightarrow> flags \<Rightarrow> bool \<Rightarrow> cycle_io list \<Rightarrow> state \<Rightarrow> state outcome" where
  "cycles U fl NoColor [] st = Next st"
| "cycles U fl NoColor (cio # cios) st =
     (case cycle U fl NoColor cio st of
        Panic err \<Rightarrow> Panic err
      | Next st' \<Rightarrow> cycles U fl NoColor cios st')"

subsection \<open>The words of the claims\<close>

text \<open>
  The keywords, the category each stands for, and what it is for a text to contain a
  keyword in any letter case: some block of the text spells the keyword when its capital
  letters are made small.
\<close>

definition keyword_list :: "string list" where
  "keyword_list = [''select'', ''insert'', ''update'', ''delete'', ''create'', ''alter'', ''drop'']"

definition category_of :: "string \<Rightarrow> category" where
  "category_of k =
     (if k = ''select'' then CatSelect
      else if k = ''insert'' then CatInsert
      else if k = ''update'' then CatUpdate
      else if k = ''delete'' then CatDelete
      else if k = ''create'' \<or> k = ''alter'' \<or> k = ''drop'' then CatDDL
      else CatUnknown)"

definition in_any_case :: "string \<Rightarrow> string \<Rightarrow> bool" where
  "in_any_case t k = (\<exists>w. sublist w t \<and> map lower_byte w = k)"

abbreviation has :: "(string \<Rightarrow> string) \<Rightarrow> string \<Rightarrow> string \<Rightarrow> bool" where
  "has U t k \<equiv> Contains (ToLower U t) k"

text \<open>
  What \<^verbatim>\<open>WriteString\<close> returns for the plain rendering of a row when the loop is in the
  given state.
\<close>

definition write_result ::
  "(string \<Rightarrow> string) \<Rightarrow> bool \<Rightarrow> file_io \<Rightarrow> row_io \<Rightarrow> Process \<Rightarrow> state \<Rightarrow> string option" where
  "write_result U NoColor fio io p st =
     snd (WriteString fio (writer st) (formatProcessOutput U NoColor (file_stamp io) p False))"

subsection \<open>Inputs for the examples\<close>

text \<open>
  The examples are texts of ASCII bytes, for which \<^verbatim>\<open>strings.ToLower\<close> does not consult the
  Unicode tables; they pass \<open>no_tables\<close> for the argument that is not applied. For one
  text that starts with the capital dotted I (U+0130, the bytes C4 B0), \<open>dotted_tables\<close>
  is what the tables of the library give.
\<close>

definition no_tables :: "string \<Rightarrow> string" where
  "no_tables s = s"

definition dotted_insert :: string where
  "dotted_insert = [CHR 0xC4, CHR 0xB0] @ ''NSERT INTO t VALUES (1)''"

definition dotted_tables :: "string \<Rightarrow> string" where
  "dotted_tables s = (if s = dotted_insert then ''insert into t values (1)'' else s)"

text \<open>A row with the given state and statement, and the flags \<^verbatim>\<open>-q\<close> and \<^verbatim>\<open>-d\<close> as given.\<close>

definition row :: "string \<Rightarrow> string \<Rightarrow> Process" where
  "row state info =
     \<lparr>ID = 7, User = ''app'', Host = ''10.0.0.5:4711'',
      DB = \<lparr>String = ''shop'', Valid = True\<rparr>, Command = ''Query'', Time = 3,
      State = \<lparr>String = state, Valid = True\<rparr>,
      Info = \<lparr>String = info, Valid = True\<rparr>\<rparr>"

definition with_flags :: "bool \<Rightarrow> bool \<Rightarrow> flags" where
  "with_flags q d =
     \<lparr>fileFlag = [], sleepFlag = 1, queryFlag = q, debugFlag = d, verboseFlag = False\<rparr>"

text \<open>
  The statement that consists of the two markers of the program's own query, and one
  that also has a keyword in lower case.
\<close>

definition own_query :: string where
  "own_query =
     ''FROM information_schema.processlist WHERE command != '' @ [quote] @ ''Sleep'' @ [quote]"

definition own_select :: string where
  "own_select = ''select ID '' @ own_query"

text \<open>
  The state at the start of the program, the reads of a row at a fixed clock, and the
  reads of a cycle on 2025-01-02 with the given results of the open and of the query,
  the given behaviour of the file and the given clock.
\<close>

definition start :: state where
  "start =
     \<lparr>queryCount = 0, lastCheck = 0, console = [], writer = NewWriter, files = [],
      sleeps = []\<rparr>"

definition at_noon :: row_io where
  "at_noon = \<lparr>file_stamp = ''2025-01-02 12:00:00'', console_stamp = ''2025-01-02 12:00:00''\<rparr>"

definition cycle_in :: "string option \<Rightarrow> string + Process list \<Rightarrow> file_io \<Rightarrow> int \<Rightarrow> cycle_io" where
  "cycle_in opn res fio t =
     \<lparr>date = ''2025-01-02'', open_err = opn, poll = res, rows_io = (\<lambda>i. at_noon),
      file_io = fio, now_check = t, now_reset = t\<rparr>"


definition long_statement :: string where
  "long_statement = ''select '' @ replicate 5000 (CHR ''x'')"


definition disk_full :: file_io where
  "disk_full k = Some (0, ''no space left on device'')"


section \<open>Evaluation\<close>

lemmas eval_string = Contains_def sublist_code ToLower_def isASCII_def lower_byte_def
  char_of_def bit_Suc_0_iff

lemmas eval_render = formatProcessOutput_def emphasis_def header_def plain_fields_def
  wrap_def format_def unformat_def sequence_def escape_def newline_def fmt_d_def digits.simps

lemmas eval_filter = skipped_def isQuery_def isMonitoringQuery_def quote_def own_query_def
  own_select_def

lemma row_simps:
  "String (State (row s i)) = s" "String (Info (row s i)) = i"
  by (simp_all add: row_def)

lemma with_flags_simps:
  "queryFlag (with_flags q d) = q" "debugFlag (with_flags q d) = d"
  "verboseFlag (with_flags q d) = False"
  by (simp_all add: with_flags_def)

section \<open>Lower case\<close>

lemma ToLower_ascii: "isASCII s \<Longrightarrow> ToLower U s = map lower_byte s"
  by (simp add: ToLower_def)

lemma ToLower_tables: "\<not> isASCII s \<Longrightarrow> ToLower U s = U s"
  by (simp add: ToLower_def)

lemma sublist_map_iff: "sublist k (map f t) \<longleftrightarrow> (\<exists>w. sublist w t \<and> map f w = k)"
proof
  assume "sublist k (map f t)"
  then obtain ps ss where "map f t = ps @ (k @ ss)"
    unfolding sublist_def by blast
  then obtain t1 r where r: "t = t1 @ r" "map f r = k @ ss"
    by (metis map_eq_append_conv)
  from r(2) obtain t2 t3 where t: "r = t2 @ t3" "map f t2 = k"
    by (metis map_eq_append_conv)
  from r(1) t(1) have "t = t1 @ t2 @ t3" by simp
  then have "sublist t2 t"
    unfolding sublist_def by blast
  with t(2) show "\<exists>w. sublist w t \<and> map f w = k" by blast
next
  assume "\<exists>w. sublist w t \<and> map f w = k"
  then obtain w where w: "sublist w t" "map f w = k" by blast
  from w(1) obtain ps ss where "t = ps @ w @ ss"
    unfolding sublist_def by blast
  then have "map f t = map f ps @ map f w @ map f ss" by simp
  with w(2) show "sublist k (map f t)"
    unfolding sublist_def by blast
qed

lemma in_any_case_iff: "in_any_case t k \<longleftrightarrow> Contains (map lower_byte t) k"
  by (simp add: in_any_case_def Contains_def sublist_map_iff)

lemma has_ascii: "isASCII t \<Longrightarrow> has U t k \<longleftrightarrow> in_any_case t k"
  by (simp add: ToLower_ascii in_any_case_iff)

lemma Contains_in_any_case: "map lower_byte k = k \<Longrightarrow> Contains t k \<Longrightarrow> in_any_case t k"
  by (auto simp: in_any_case_def Contains_def)

lemma keyword_lower:
  "map lower_byte ''select'' = ''select''" "map lower_byte ''insert'' = ''insert''"
  "map lower_byte ''update'' = ''update''" "map lower_byte ''delete'' = ''delete''"
  "map lower_byte ''create'' = ''create''" "map lower_byte ''alter'' = ''alter''"
  "map lower_byte ''drop'' = ''drop''"
  by (simp_all add: lower_byte_def)

lemma isQuery_in_any_case:
  assumes "isQuery t"
  shows "\<exists>k \<in> set keyword_list. in_any_case t k"
proof -
  from assms consider "Contains t ''select''" | "Contains t ''insert''"
    | "Contains t ''update''" | "Contains t ''delete''" | "Contains t ''create''"
    | "Contains t ''alter''" | "Contains t ''drop''"
    unfolding isQuery_def by blast
  then show ?thesis
  proof cases
    case 1
    from Contains_in_any_case [OF keyword_lower(1) this] show ?thesis
      by (simp add: keyword_list_def)
  next
    case 2
    from Contains_in_any_case [OF keyword_lower(2) this] show ?thesis
      by (simp add: keyword_list_def)
  next
    case 3
    from Contains_in_any_case [OF keyword_lower(3) this] show ?thesis
      by (simp add: keyword_list_def)
  next
    case 4
    from Contains_in_any_case [OF keyword_lower(4) this] show ?thesis
      by (simp add: keyword_list_def)
  next
    case 5
    from Contains_in_any_case [OF keyword_lower(5) this] show ?thesis
      by (simp add: keyword_list_def)
  next
    case 6
    from Contains_in_any_case [OF keyword_lower(6) this] show ?thesis
      by (simp add: keyword_list_def)
  next
    case 7
    from Contains_in_any_case [OF keyword_lower(7) this] show ?thesis
      by (simp add: keyword_list_def)
  qed
qed

lemma dotted_insert_lower: "ToLower dotted_tables dotted_insert = ''insert into t values (1)''"
  by (simp add: ToLower_def dotted_tables_def) (simp add: dotted_insert_def isASCII_def)

section \<open>The classifier\<close>

text \<open>
  C7. The keyword tests lower-case the text with \<^verbatim>\<open>strings.ToLower\<close> and go through select,
  insert, update, delete and then create, alter or drop; the first that holds decides.
  So a text whose lower-cased form contains exactly one of the seven keywords gets the
  category of that keyword, and a text whose lower-cased form contains none of them, the
  empty text among them, is unknown. For a text of ASCII bytes the lower-cased form
  contains a keyword exactly when some block of the text spells it in some mixture of
  capital and small letters. All of this holds whatever the Unicode tables are.
\<close>

theorem classify_first_match:
  "(has U t ''select'' \<longrightarrow> classify U t = CatSelect) \<and>
   (\<not> has U t ''select'' \<and> has U t ''insert'' \<longrightarrow> classify U t = CatInsert) \<and>
   (\<not> has U t ''select'' \<and> \<not> has U t ''insert'' \<and> has U t ''update''
      \<longrightarrow> classify U t = CatUpdate) \<and>
   (\<not> has U t ''select'' \<and> \<not> has U t ''insert'' \<and> \<not> has U t ''update'' \<and>
    has U t ''delete''
      \<longrightarrow> classify U t = CatDelete) \<and>
   (\<not> has U t ''select'' \<and> \<not> has U t ''insert'' \<and> \<not> has U t ''update'' \<and>
    \<not> has U t ''delete'' \<and> (has U t ''create'' \<or> has U t ''alter'' \<or> has U t ''drop'')
      \<longrightarrow> classify U t = CatDDL) \<and>
   (k \<in> set keyword_list \<and> has U t k \<and> (\<forall>k' \<in> set keyword_list. has U t k' \<longrightarrow> k' = k)
      \<longrightarrow> classify U t = category_of k) \<and>
   ((\<forall>k' \<in> set keyword_list. \<not> has U t k') \<longrightarrow> classify U t = CatUnknown) \<and>
   classify U [] = CatUnknown \<and>
   (isASCII t \<longrightarrow> (has U t k \<longleftrightarrow> in_any_case t k))"
proof (intro conjI)
  show "has U t ''select'' \<longrightarrow> classify U t = CatSelect"
    by (simp add: classify_def)
  show "\<not> has U t ''select'' \<and> has U t ''insert'' \<longrightarrow> classify U t = CatInsert"
    by (simp add: classify_def)
  show "\<not> has U t ''select'' \<and> \<not> has U t ''insert'' \<and> has U t ''update''
          \<longrightarrow> classify U t = CatUpdate"
    by (simp add: classify_def)
  show "\<not> has U t ''select'' \<and> \<not> has U t ''insert'' \<and> \<not> has U t ''update'' \<and>
        has U t ''delete'' \<longrightarrow> classify U t = CatDelete"
    by (simp add: classify_def)
  show "\<not> has U t ''select'' \<and> \<not> has U t ''insert'' \<and> \<not> has U t ''update'' \<and>
        \<not> has U t ''delete'' \<and> (has U t ''create'' \<or> has U t ''alter'' \<or> has U t ''drop'')
          \<longrightarrow> classify U t = CatDDL"
    by (simp add: classify_def)
  show "(\<forall>k' \<in> set keyword_list. \<not> has U t k') \<longrightarrow> classify U t = CatUnknown"
    by (simp add: classify_def keyword_list_def)
  have "ToLower U [] = []"
    by (simp add: ToLower_def isASCII_def)
  then show "classify U [] = CatUnknown"
    by (simp add: classify_def Contains_def)
  show "isASCII t \<longrightarrow> (has U t k \<longleftrightarrow> in_any_case t k)"
    by (simp add: has_ascii)
  show "k \<in> set keyword_list \<and> has U t k \<and> (\<forall>k' \<in> set keyword_list. has U t k' \<longrightarrow> k' = k)
          \<longrightarrow> classify U t = category_of k"
  proof
    assume a: "k \<in> set keyword_list \<and> has U t k \<and>
               (\<forall>k' \<in> set keyword_list. has U t k' \<longrightarrow> k' = k)"
    then have k: "k \<in> set keyword_list" and h: "has U t k"
      and only: "\<And>k'. k' \<in> set keyword_list \<Longrightarrow> k' \<noteq> k \<Longrightarrow> \<not> has U t k'"
      by blast+
    have kw: "''select'' \<in> set keyword_list" "''insert'' \<in> set keyword_list"
             "''update'' \<in> set keyword_list" "''delete'' \<in> set keyword_list"
      by (simp_all add: keyword_list_def)
    from k have "k = ''select'' \<or> k = ''insert'' \<or> k = ''update'' \<or> k = ''delete'' \<or>
                 k = ''create'' \<or> k = ''alter'' \<or> k = ''drop''"
      by (simp add: keyword_list_def)
    then show "classify U t = category_of k"
    proof (elim disjE)
      assume c: "k = ''select''"
      with h show ?thesis by (simp add: classify_def category_of_def)
    next
      assume c: "k = ''insert''"
      then have "\<not> has U t ''select''"
        using only [OF kw(1)] by simp
      with c h show ?thesis by (simp add: classify_def category_of_def)
    next
      assume c: "k = ''update''"
      then have "\<not> has U t ''select''" "\<not> has U t ''insert''"
        using only [OF kw(1)] only [OF kw(2)] by simp_all
      with c h show ?thesis by (simp add: classify_def category_of_def)
    next
      assume c: "k = ''delete''"
      then have "\<not> has U t ''select''" "\<not> has U t ''insert''" "\<not> has U t ''update''"
        using only [OF kw(1)] only [OF kw(2)] only [OF kw(3)] by simp_all
      with c h show ?thesis by (simp add: classify_def category_of_def)
    next
      assume c: "k = ''create''"
      then have "\<not> has U t ''select''" "\<not> has U t ''insert''" "\<not> has U t ''update''"
                "\<not> has U t ''delete''"
        using only [OF kw(1)] only [OF kw(2)] only [OF kw(3)] only [OF kw(4)] by simp_all
      with c h show ?thesis by (simp add: classify_def category_of_def)
    next
      assume c: "k = ''alter''"
      then have "\<not> has U t ''select''" "\<not> has U t ''insert''" "\<not> has U t ''update''"
                "\<not> has U t ''delete''"
        using only [OF kw(1)] only [OF kw(2)] only [OF kw(3)] only [OF kw(4)] by simp_all
      with c h show ?thesis by (simp add: classify_def category_of_def)
    next
      assume c: "k = ''drop''"
      then have "\<not> has U t ''select''" "\<not> has U t ''insert''" "\<not> has U t ''update''"
                "\<not> has U t ''delete''"
        using only [OF kw(1)] only [OF kw(2)] only [OF kw(3)] only [OF kw(4)] by simp_all
      with c h show ?thesis by (simp add: classify_def category_of_def)
    qed
  qed
qed

theorem classify_first_match_witness:
  "''insert'' \<in> set keyword_list \<and>
   has no_tables ''INSERT INTO t VALUES (1)'' ''insert'' \<and>
   \<not> has no_tables ''INSERT INTO t VALUES (1)'' ''select'' \<and>
   classify no_tables ''INSERT INTO t VALUES (1)'' = CatInsert \<and>
   isASCII ''Drop Table t'' \<and>
   in_any_case ''Drop Table t'' ''drop'' \<and>
   classify no_tables ''Drop Table t'' = CatDDL \<and>
   in_any_case ''SeLeCt 1'' ''select'' \<and>
   classify no_tables ''SeLeCt 1'' = CatSelect \<and>
   classify no_tables ''SHOW TABLES'' = CatUnknown \<and>
   \<not> isASCII dotted_insert \<and>
   has dotted_tables dotted_insert ''insert'' \<and>
   classify dotted_tables dotted_insert = CatInsert"
proof -
  let ?i = "''INSERT INTO t VALUES (1)''"
  let ?d = "''Drop Table t''"
  have k: "''insert'' \<in> set keyword_list" "''drop'' \<in> set keyword_list"
    by (simp_all add: keyword_list_def)
  have i: "has no_tables ?i ''insert''" "\<not> has no_tables ?i ''select''"
    by (simp_all add: eval_string)
  have i': "\<forall>k' \<in> set keyword_list. has no_tables ?i k' \<longrightarrow> k' = ''insert''"
    by (simp add: keyword_list_def eval_string)
  have d: "isASCII ?d" "has no_tables ?d ''drop''"
    by (simp_all add: eval_string)
  have d': "\<forall>k' \<in> set keyword_list. has no_tables ?d k' \<longrightarrow> k' = ''drop''"
    by (simp add: keyword_list_def eval_string)
  have s: "isASCII ''SeLeCt 1''" "has no_tables ''SeLeCt 1'' ''select''"
    by (simp_all add: eval_string)
  have n: "\<forall>k' \<in> set keyword_list. \<not> has no_tables ''SHOW TABLES'' k'"
    by (simp add: keyword_list_def eval_string)
  have t: "\<not> isASCII dotted_insert"
    by (simp add: dotted_insert_def isASCII_def)
  have t': "has dotted_tables dotted_insert ''insert''"
           "\<not> has dotted_tables dotted_insert ''select''"
    by (simp_all add: dotted_insert_lower Contains_def sublist_code)
  have c: "category_of ''insert'' = CatInsert" "category_of ''drop'' = CatDDL"
    by (simp_all add: category_of_def)
  from classify_first_match [of no_tables ?i "''insert''"] k(1) i(1) i'
  have 1: "classify no_tables ?i = CatInsert"
    unfolding c(1) [symmetric] by blast
  from classify_first_match [of no_tables ?d "''drop''"] k(2) d d'
  have 2: "classify no_tables ?d = CatDDL" "in_any_case ?d ''drop''"
    unfolding c(2) [symmetric] by blast+
  from classify_first_match [of no_tables "''SeLeCt 1''" "''select''"] s
  have 3: "classify no_tables ''SeLeCt 1'' = CatSelect" "in_any_case ''SeLeCt 1'' ''select''"
    by blast+
  from classify_first_match [of no_tables "''SHOW TABLES''" "''select''"] n
  have 4: "classify no_tables ''SHOW TABLES'' = CatUnknown"
    by blast
  from classify_first_match [of dotted_tables dotted_insert "''insert''"] t'
  have 5: "classify dotted_tables dotted_insert = CatInsert"
    by blast
  from k(1) i 1 d(1) 2 3 4 t t'(1) 5 show ?thesis
    by (intro conjI)
qed

section \<open>The renderer\<close>

text \<open>
  C8, as the claim states it, fails: a row in state login whose statement contains select
  and count(*) is rendered with the red state colour and the plain cyan statement colour
  of the first case of the switch, not with the bold magenta of an aggregate.
\<close>

theorem aggregate_emphasis_counterexample:
  "has no_tables (String (Info (row ''login'' ''select count(*) from t''))) ''select'' \<and>
   has no_tables (String (Info (row ''login'' ''select count(*) from t''))) ''count(*)'' \<and>
   snd (emphasis no_tables (row ''login'' ''select count(*) from t'') True) = [FgCyan] \<and>
   snd (emphasis no_tables (row ''login'' ''select count(*) from t'') True) \<noteq> [FgMagenta, Bold]"
  by (simp add: row_simps emphasis_def eval_string)

text \<open>
  C8, amended. For a row whose statement contains select and count(*) in any letter
  case: when colours are asked for and the state is neither login nor Receiving from
  client, the statement colour is bold magenta (the aggregate emphasis); and whatever the
  state and the flag, it is never the bold green of a bounded select, also when the
  statement contains limit.
\<close>

theorem aggregate_emphasis:
  assumes "has U (String (Info p)) ''select''"
      and "has U (String (Info p)) ''count(*)''"
  shows "(String (State p) \<noteq> ''login'' \<and> String (State p) \<noteq> ''Receiving from client''
            \<longrightarrow> snd (emphasis U p True) = [FgMagenta, Bold]) \<and>
         snd (emphasis U p useColor) \<noteq> [FgGreen, Bold]"
  using assms by (simp add: emphasis_def classify_def)

theorem aggregate_emphasis_witness:
  "has no_tables (String (Info (row ''executing'' ''SELECT COUNT(*) FROM t LIMIT 5''))) ''select'' \<and>
   has no_tables (String (Info (row ''executing'' ''SELECT COUNT(*) FROM t LIMIT 5'')))
     ''count(*)'' \<and>
   has no_tables (String (Info (row ''executing'' ''SELECT COUNT(*) FROM t LIMIT 5''))) ''limit'' \<and>
   String (State (row ''executing'' ''SELECT COUNT(*) FROM t LIMIT 5'')) \<noteq> ''login'' \<and>
   String (State (row ''executing'' ''SELECT COUNT(*) FROM t LIMIT 5''))
     \<noteq> ''Receiving from client'' \<and>
   snd (emphasis no_tables (row ''executing'' ''SELECT COUNT(*) FROM t LIMIT 5'') True)
     = [FgMagenta, Bold]"
proof -
  let ?p = "row ''executing'' ''SELECT COUNT(*) FROM t LIMIT 5''"
  have h: "has no_tables (String (Info ?p)) ''select''"
          "has no_tables (String (Info ?p)) ''count(*)''"
          "has no_tables (String (Info ?p)) ''limit''"
    by (simp_all add: row_simps eval_string)
  have s: "String (State ?p) \<noteq> ''login''" "String (State ?p) \<noteq> ''Receiving from client''"
    by (simp_all add: row_simps)
  from aggregate_emphasis [OF h(1) h(2), of True] h s show ?thesis
    by blast
qed

text \<open>
  C10. At one timestamp, the rendering with colours and the rendering without are the
  same banner line and the same ID, USER, HOST, DB, COMMAND and TIME lines, followed by
  the STATE and INFO lines; only the colours wrapped around the state and the statement
  depend on the flag.
\<close>

theorem render_frame:
  "formatProcessOutput U NoColor ts p True =
     header ts @ plain_fields p @
     ''    STATE: '' @ wrap NoColor (fst (emphasis U p True)) (String (State p)) @ [newline] @
     ''     INFO: '' @ wrap NoColor (snd (emphasis U p True)) (String (Info p)) @
     [newline, newline] \<and>
   formatProcessOutput U NoColor ts p False =
     header ts @ plain_fields p @
     ''    STATE: '' @ wrap NoColor [FgYellow] (String (State p)) @ [newline] @
     ''     INFO: '' @ wrap NoColor [FgCyan] (String (Info p)) @
     [newline, newline]"
  by (simp add: formatProcessOutput_def emphasis_def)

theorem render_frame_witness:
  "formatProcessOutput no_tables False ''2025-01-02 03:04:05'' (row ''executing'' ''SELECT 1'')
     True =
     header ''2025-01-02 03:04:05'' @ plain_fields (row ''executing'' ''SELECT 1'') @
     ''    STATE: '' @ [escape] @ ''[32mexecuting'' @ [escape] @ ''[0m'' @ [newline] @
     ''     INFO: '' @ [escape] @ ''[36;1mSELECT 1'' @ [escape] @ ''[0;22m'' @
     [newline, newline] \<and>
   formatProcessOutput no_tables False ''2025-01-02 03:04:05'' (row ''executing'' ''SELECT 1'')
     False =
     header ''2025-01-02 03:04:05'' @ plain_fields (row ''executing'' ''SELECT 1'') @
     ''    STATE: '' @ [escape] @ ''[33mexecuting'' @ [escape] @ ''[0m'' @ [newline] @
     ''     INFO: '' @ [escape] @ ''[36mSELECT 1'' @ [escape] @ ''[0m'' @
     [newline, newline]"
proof -
  have e: "emphasis no_tables (row ''executing'' ''SELECT 1'') True
             = ([FgGreen], [FgCyan, Bold])"
    by (simp add: emphasis_def classify_def row_simps eval_string)
  have w: "wrap False [FgGreen] ''executing'' = [escape] @ ''[32mexecuting'' @ [escape] @ ''[0m''"
          "wrap False [FgCyan, Bold] ''SELECT 1'' =
             [escape] @ ''[36;1mSELECT 1'' @ [escape] @ ''[0;22m''"
          "wrap False [FgYellow] ''executing'' = [escape] @ ''[33mexecuting'' @ [escape] @ ''[0m''"
          "wrap False [FgCyan] ''SELECT 1'' = [escape] @ ''[36mSELECT 1'' @ [escape] @ ''[0m''"
    by (simp_all add: wrap_def format_def unformat_def sequence_def digits.simps)
  from render_frame [of no_tables False "''2025-01-02 03:04:05''"
                        "row ''executing'' ''SELECT 1''"]
  show ?thesis
    by (simp add: e w row_simps)
qed

section \<open>The file sink\<close>

text \<open>
  C5. The rendering written to the file is \<open>formatProcessOutput\<close> with \<open>useColor\<close> false.
  That flag only selects the colours: the state and the statement are still passed
  through the yellow and the cyan colour function. On a terminal (\<open>NoColor\<close> false) the
  bytes written to the file therefore carry escape sequences, and they differ from the
  bytes written when the output is not a terminal.
\<close>

theorem file_rendering_has_colour_codes:
  "formatProcessOutput no_tables False ''2025-01-02 03:04:05''
     (row ''executing'' ''SHOW TABLES'') False =
     ''*************************** Process Info @ 2025-01-02 03:04:05 '' @
     ''***************************'' @ [newline] @
     ''       ID: 7'' @ [newline] @
     ''     USER: app'' @ [newline] @
     ''     HOST: 10.0.0.5:4711'' @ [newline] @
     ''       DB: shop'' @ [newline] @
     ''  COMMAND: Query'' @ [newline] @
     ''     TIME: 3'' @ [newline] @
     ''    STATE: '' @ [CHR 0x1B] @ ''[33mexecuting'' @ [CHR 0x1B] @ ''[0m'' @ [newline] @
     ''     INFO: '' @ [CHR 0x1B] @ ''[36mSHOW TABLES'' @ [CHR 0x1B] @ ''[0m'' @
     [newline, newline] \<and>
   CHR 0x1B \<in> set (formatProcessOutput no_tables False ''2025-01-02 03:04:05''
                     (row ''executing'' ''SHOW TABLES'') False) \<and>
   formatProcessOutput no_tables False ''2025-01-02 03:04:05''
     (row ''executing'' ''SHOW TABLES'') False
     \<noteq> formatProcessOutput no_tables True ''2025-01-02 03:04:05''
         (row ''executing'' ''SHOW TABLES'') False"
  by (simp add: eval_render row_def)

section \<open>The filter\<close>

text \<open>
  C2. In queries-only mode the keywords are looked for in the statement as it is, not in
  its lower-cased form. A row with the statement SELECT 1 is skipped, as is one with
  SHOW TABLES; select 1 in lower case is kept.
\<close>

theorem queries_only_is_case_sensitive:
  "skipped (with_flags True False) (row ''executing'' ''SELECT 1'') \<and>
   skipped (with_flags True False) (row ''executing'' ''SHOW TABLES'') \<and>
   \<not> skipped (with_flags True False) (row ''executing'' ''select 1'') \<and>
   classify no_tables ''SELECT 1'' = CatSelect"
  by (simp add: eval_filter with_flags_simps row_simps classify_def eval_string)

text \<open>
  C6, as the claim states it, fails: in debug mode with queries-only mode on, a row whose
  statement is made of the two markers and contains none of the keywords in any letter
  case is skipped by the second test.
\<close>

theorem own_query_debug_counterexample:
  "isMonitoringQuery (String (Info (row ''executing'' own_query))) \<and>
   debugFlag (with_flags True True) \<and>
   skipped (with_flags True True) (row ''executing'' own_query)"
  by (simp add: eval_filter with_flags_simps row_simps eval_string)

text \<open>
  C6, amended. A row whose statement contains both markers is skipped whenever debug mode
  is off, whatever its other fields and the other flags. In debug mode it is kept when
  queries-only mode is off; with queries-only mode on it is kept when the statement
  contains one of the keywords, and skipped when it contains none of them in any letter
  case.
\<close>

theorem own_query_filter:
  assumes "isMonitoringQuery (String (Info p))"
  shows "(\<not> debugFlag fl \<longrightarrow> skipped fl p) \<and>
         (debugFlag fl \<and> \<not> queryFlag fl \<longrightarrow> \<not> skipped fl p) \<and>
         (debugFlag fl \<and> queryFlag fl \<and> isQuery (String (Info p)) \<longrightarrow> \<not> skipped fl p) \<and>
         (debugFlag fl \<and> queryFlag fl \<and>
          (\<forall>k \<in> set keyword_list. \<not> in_any_case (String (Info p)) k) \<longrightarrow> skipped fl p)"
proof (intro conjI impI)
  assume "\<not> debugFlag fl"
  with assms show "skipped fl p" by (simp add: skipped_def)
next
  assume "debugFlag fl \<and> \<not> queryFlag fl"
  then show "\<not> skipped fl p" by (simp add: skipped_def)
next
  assume "debugFlag fl \<and> queryFlag fl \<and> isQuery (String (Info p))"
  then show "\<not> skipped fl p" by (simp add: skipped_def)
next
  assume a: "debugFlag fl \<and> queryFlag fl \<and>
             (\<forall>k \<in> set keyword_list. \<not> in_any_case (String (Info p)) k)"
  with isQuery_in_any_case [of "String (Info p)"] have "\<not> isQuery (String (Info p))"
    by blast
  with a show "skipped fl p" by (simp add: skipped_def)
qed

lemma own_query_no_keyword: "\<forall>k \<in> set keyword_list. \<not> in_any_case own_query k"
  by (simp add: keyword_list_def in_any_case_iff own_query_def quote_def Contains_def
      sublist_code lower_byte_def char_of_def bit_Suc_0_iff)

theorem own_query_filter_witness:
  "isMonitoringQuery (String (Info (row ''executing'' own_query))) \<and>
   \<not> debugFlag (with_flags False False) \<and>
   skipped (with_flags False False) (row ''executing'' own_query) \<and>
   \<not> debugFlag (with_flags True False) \<and>
   skipped (with_flags True False) (row ''executing'' own_query) \<and>
   debugFlag (with_flags False True) \<and> \<not> queryFlag (with_flags False True) \<and>
   \<not> skipped (with_flags False True) (row ''executing'' own_query) \<and>
   isMonitoringQuery (String (Info (row ''executing'' own_select))) \<and>
   debugFlag (with_flags True True) \<and> queryFlag (with_flags True True) \<and>
   isQuery (String (Info (row ''executing'' own_select))) \<and>
   \<not> skipped (with_flags True True) (row ''executing'' own_select) \<and>
   \<not> in_any_case (String (Info (row ''executing'' own_query))) ''select'' \<and>
   skipped (with_flags True True) (row ''executing'' own_query)"
proof -
  have m: "isMonitoringQuery (String (Info (row ''executing'' own_query)))"
          "isMonitoringQuery (String (Info (row ''executing'' own_select)))"
    by (simp_all add: eval_filter row_simps eval_string)
  have q: "isQuery (String (Info (row ''executing'' own_select)))"
    by (simp add: eval_filter row_simps eval_string)
  have n: "\<forall>k \<in> set keyword_list. \<not> in_any_case (String (Info (row ''executing'' own_query))) k"
    by (simp add: row_simps own_query_no_keyword)
  then have n': "\<not> in_any_case (String (Info (row ''executing'' own_query))) ''select''"
    by (simp add: keyword_list_def)
  have f: "\<not> debugFlag (with_flags False False)" "\<not> debugFlag (with_flags True False)"
          "debugFlag (with_flags False True)" "\<not> queryFlag (with_flags False True)"
          "debugFlag (with_flags True True)" "queryFlag (with_flags True True)"
    by (simp_all add: with_flags_simps)
  from own_query_filter [OF m(1), of "with_flags False False"] f
  have 1: "skipped (with_flags False False) (row ''executing'' own_query)" by blast
  from own_query_filter [OF m(1), of "with_flags True False"] f
  have 2: "skipped (with_flags True False) (row ''executing'' own_query)" by blast
  from own_query_filter [OF m(1), of "with_flags False True"] f
  have 3: "\<not> skipped (with_flags False True) (row ''executing'' own_query)" by blast
  from own_query_filter [OF m(2), of "with_flags True True"] f q
  have 4: "\<not> skipped (with_flags True True) (row ''executing'' own_select)" by blast
  from own_query_filter [OF m(1), of "with_flags True True"] f n
  have 5: "skipped (with_flags True True) (row ''executing'' own_query)" by blast
  from m f q n' 1 2 3 4 5 show ?thesis
    by (intro conjI)
qed

section \<open>The buffered writer\<close>

lemma WriteString_loop_done:
  "\<not> (length s > Available w \<and> werr w = None) \<Longrightarrow> WriteString_loop fio w s = (w, s)"
  by (subst WriteString_loop.simps) auto

lemma WriteString_sticky: "werr w = Some e \<Longrightarrow> WriteString fio w s = (w, Some e)"
  by (simp add: WriteString_def WriteString_loop_done)

lemma WriteString_fits:
  "werr w = None \<Longrightarrow> length s \<le> Available w \<Longrightarrow>
   WriteString fio w s = (w\<lparr>wbuf := wbuf w @ s\<rparr>, None)"
  by (simp add: WriteString_def WriteString_loop_done)

lemma WriteString_direct_fail:
  assumes "werr w = None" and "wbuf w = []" and "length s > 4096"
      and "fio (wcalls w) = Some (n, e)"
  shows "WriteString fio w s =
           (w\<lparr>wcalls := Suc (wcalls w), wfile := wfile w @ take n s, werr := Some e\<rparr>, Some e)"
proof -
  from assms have "WriteString_loop fio w s =
      WriteString_loop fio (w\<lparr>wcalls := Suc (wcalls w), wfile := wfile w @ take n s,
                               werr := Some e\<rparr>) (drop (min n (length s)) s)"
    by (subst WriteString_loop.simps) (simp add: Available_def file_Write_def)
  also have "\<dots> = (w\<lparr>wcalls := Suc (wcalls w), wfile := wfile w @ take n s, werr := Some e\<rparr>,
                    drop (min n (length s)) s)"
    by (rule WriteString_loop_done) simp
  finally show ?thesis
    by (simp add: WriteString_def)
qed

lemma WriteString_result: "snd (WriteString fio w s) = werr (fst (WriteString fio w s))"
  by (cases "WriteString_loop fio w s") (auto simp: WriteString_def)

section \<open>The loop: what a row and a cycle change\<close>

lemma verbose_line_fields [simp]:
  "queryCount (verbose_line U fl p st) = queryCount st"
  "lastCheck (verbose_line U fl p st) = lastCheck st"
  "writer (verbose_line U fl p st) = writer st"
  "files (verbose_line U fl p st) = files st"
  "sleeps (verbose_line U fl p st) = sleeps st"
  by (simp_all add: verbose_line_def)

lemma debug_count_fields [simp]:
  "lastCheck (debug_count fl p st) = lastCheck st"
  "writer (debug_count fl p st) = writer st"
  "files (debug_count fl p st) = files st"
  "sleeps (debug_count fl p st) = sleeps st"
  "queryCount (debug_count fl p st) =
     (if debugFlag fl \<and> counts (String (Info p)) then queryCount st + 1 else queryCount st)"
  by (simp_all add: debug_count_def)

lemma write_and_print_fields [simp]:
  "queryCount (write_and_print U nc fio io p st) = queryCount st"
  "lastCheck (write_and_print U nc fio io p st) = lastCheck st"
  "files (write_and_print U nc fio io p st) = files st"
  "sleeps (write_and_print U nc fio io p st) = sleeps st"
  by (simp_all add: write_and_print_def Let_def split: prod.split option.split)

lemma process_row_fields [simp]:
  "lastCheck (process_row U fl nc fio io st p) = lastCheck st"
  "files (process_row U fl nc fio io st p) = files st"
  "sleeps (process_row U fl nc fio io st p) = sleeps st"
  by (simp_all add: process_row_def)

lemma process_row_queryCount:
  "queryCount (process_row U fl nc fio io st p) =
     (if debugFlag fl \<and> \<not> skipped fl p \<and> counts (String (Info p))
      then queryCount st + 1 else queryCount st)"
  by (simp add: process_row_def)

lemma process_rows_fields [simp]:
  "lastCheck (process_rows U fl nc fio io i st ps) = lastCheck st"
  "files (process_rows U fl nc fio io i st ps) = files st"
  "sleeps (process_rows U fl nc fio io i st ps) = sleeps st"
  by (induction ps arbitrary: i st; simp)+

lemma process_rows_queryCount:
  "queryCount (process_rows U fl nc fio io i st ps) =
     queryCount st +
     (if debugFlag fl
      then of_nat (length (filter (\<lambda>p. \<not> skipped fl p \<and> counts (String (Info p))) ps))
      else 0)"
  by (induction ps arbitrary: i st) (simp_all add: process_row_queryCount)

lemma console_verbose_line:
  "console (verbose_line U fl p st) =
     console st @
     (if verboseFlag fl
      then [Verbose (queryType U (String (Info p))) (String (State p)) (Time p)
              (String (Info p))]
      else [])"
  by (simp add: verbose_line_def)

lemma console_debug_count:
  "console (debug_count fl p st) =
     console st @
     (if debugFlag fl \<and> counts (String (Info p))
      then [DebugQuery (queryCount st + 1) (String (Info p)) (String (State p)) (Time p)]
      else [])"
  by (simp add: debug_count_def)

lemma write_result_diag [simp]:
  "write_result U nc fio io p (debug_count fl p (verbose_line U fl p st)) =
   write_result U nc fio io p st"
  by (simp add: write_result_def)

lemma process_row_console:
  assumes "\<not> skipped fl p"
  shows "console (process_row U fl nc fio io st p) =
           console st @
           (if verboseFlag fl
            then [Verbose (queryType U (String (Info p))) (String (State p)) (Time p)
                    (String (Info p))]
            else []) @
           (if debugFlag fl \<and> counts (String (Info p))
            then [DebugQuery (queryCount st + 1) (String (Info p)) (String (State p)) (Time p)]
            else []) @
           [case write_result U nc fio io p st of
              Some e \<Rightarrow> WriteError e
            | None \<Rightarrow> Print (formatProcessOutput U nc (console_stamp io) p True)]"
  using assms
  by (simp add: process_row_def write_and_print_def write_result_def console_debug_count
      console_verbose_line split: prod.split option.split)

lemma process_row_werr:
  "\<not> skipped fl p \<Longrightarrow>
   werr (writer (process_row U fl nc fio io st p)) = write_result U nc fio io p st"
  using WriteString_result
    [of fio "writer st" "formatProcessOutput U nc (file_stamp io) p False"]
  by (simp add: process_row_def write_and_print_def write_result_def
      split: prod.split option.split)

lemma write_result_sticky:
  "werr (writer st) = Some e \<Longrightarrow> write_result U nc fio io p st = Some e"
  by (simp add: write_result_def WriteString_sticky)

lemma process_row_sticky:
  "werr (writer st) = Some e \<Longrightarrow> werr (writer (process_row U fl nc fio io st p)) = Some e"
  by (cases "skipped fl p") (simp_all add: process_row_werr write_result_sticky, simp add: process_row_def)

lemma process_row_skipped: "skipped fl p \<Longrightarrow> process_row U fl nc fio io st p = st"
  by (simp add: process_row_def)




lemma process_rows_sticky:
  "werr (writer st) = Some e \<Longrightarrow>
   werr (writer (process_rows U fl nc fio io i st ps)) = Some e"
  by (induction ps arbitrary: i st) (simp_all add: process_row_sticky)

lemma process_row_sticky_prints:
  assumes "werr (writer st) = Some e"
  shows "Print s \<in> set (console (process_row U fl nc fio io st p)) \<longleftrightarrow>
         Print s \<in> set (console st)"
  using assms
  by (cases "skipped fl p")
     (simp_all add: process_row_skipped process_row_console write_result_sticky)

lemma process_rows_sticky_prints:
  "werr (writer st) = Some e \<Longrightarrow>
   Print s \<in> set (console (process_rows U fl nc fio io i st ps)) \<longleftrightarrow>
   Print s \<in> set (console st)"
  by (induction ps arbitrary: i st)
     (simp_all add: process_row_sticky process_row_sticky_prints)

lemma process_row_sticky_errors:
  assumes "werr (writer st) = Some e"
  shows "length (filter (\<lambda>x. x = WriteError e) (console (process_row U fl nc fio io st p))) =
         length (filter (\<lambda>x. x = WriteError e) (console st)) + (if skipped fl p then 0 else 1)"
  using assms
  by (cases "skipped fl p")
     (simp_all add: process_row_skipped process_row_console write_result_sticky)

lemma process_rows_sticky_errors:
  "werr (writer st) = Some e \<Longrightarrow>
   length (filter (\<lambda>x. x = WriteError e) (console (process_rows U fl nc fio io i st ps))) =
   length (filter (\<lambda>x. x = WriteError e) (console st)) +
   length (filter (\<lambda>q. \<not> skipped fl q) ps)"
  by (induction ps arbitrary: i st)
     (simp_all add: process_row_sticky process_row_sticky_errors)



lemma cycle_poll_fails:
  "open_err cio = None \<Longrightarrow> poll cio = Inl e \<Longrightarrow>
   cycle U fl nc cio st =
     Next (st\<lparr>writer := NewWriter, console := console st @ [PollError e]\<rparr>)"
  by (simp add: cycle_def)





lemma length_wrap: "length s \<le> length (wrap nc c s)"
  by (simp add: wrap_def)

lemma length_render: "length (String (Info p)) < length (formatProcessOutput U nc ts p c)"
  using length_wrap [of "String (Info p)" nc "snd (emphasis U p c)"]
  by (simp add: formatProcessOutput_def Let_def)

lemma Contains_set: "Contains t k \<Longrightarrow> set k \<subseteq> set t"
  by (auto simp: Contains_def sublist_def)

lemma start_simps:
  "queryCount start = 0" "lastCheck start = 0" "console start = []" "writer start = NewWriter"
  "files start = []" "sleeps start = []"
  by (simp_all add: start_def)

lemma NewWriter_simps:
  "wbuf NewWriter = []" "werr NewWriter = None" "wcalls NewWriter = 0" "wfile NewWriter = []"
  by (simp_all add: NewWriter_def)

lemma at_noon_simps:
  "file_stamp at_noon = ''2025-01-02 12:00:00''" "console_stamp at_noon = ''2025-01-02 12:00:00''"
  by (simp_all add: at_noon_def)

lemma cycle_in_simps:
  "open_err (cycle_in opn res fio t) = opn" "poll (cycle_in opn res fio t) = res"
  "rows_io (cycle_in opn res fio t) i = at_noon" "file_io (cycle_in opn res fio t) = fio"
  "now_check (cycle_in opn res fio t) = t" "now_reset (cycle_in opn res fio t) = t"
  "date (cycle_in opn res fio t) = ''2025-01-02''"
  by (simp_all add: cycle_in_def)

lemma long_row_kept: "\<not> skipped (with_flags False d) (row s long_statement)"
proof -
  have "CHR ''F'' \<notin> set long_statement"
    by (simp add: long_statement_def)
  then have "\<not> Contains long_statement ''FROM information_schema.processlist''"
    using Contains_set [of long_statement "''FROM information_schema.processlist''"] by auto
  then show ?thesis
    by (simp add: skipped_def isMonitoringQuery_def with_flags_simps row_simps)
qed

lemma long_row_WriteString:
  "WriteString disk_full NewWriter (formatProcessOutput U nc ts (row s long_statement) False) =
     (NewWriter\<lparr>wcalls := Suc 0, werr := Some ''no space left on device''\<rparr>,
      Some ''no space left on device'')"
proof -
  have "length (String (Info (row s long_statement))) > 4096"
    by (simp add: row_simps long_statement_def)
  with length_render [of "row s long_statement" U nc ts False]
  have "length (formatProcessOutput U nc ts (row s long_statement) False) > 4096"
    by linarith
  then show ?thesis
    by (simp add: WriteString_direct_fail [where n = 0] NewWriter_simps disk_full_def)
qed

lemma long_row_write_fails:
  "writer st = NewWriter \<Longrightarrow>
   write_result U nc disk_full io (row s long_statement) st = Some ''no space left on device''"
  by (simp add: write_result_def long_row_WriteString)

lemma short_row_fits:
  "length (formatProcessOutput no_tables False ''2025-01-02 12:00:00''
             (row ''executing'' ''select 1'') False) \<le> 4096"
  by (simp add: eval_render row_def)



lemma batch_kept:
  "\<not> skipped (with_flags False d) (row ''executing'' ''select 1'')"
  "\<not> skipped (with_flags False d) (row ''executing'' ''SHOW TABLES'')"
  "\<not> skipped (with_flags False d) (row ''updating'' ''update t set a = 1 limit 5'')"
  by (simp_all add: eval_filter with_flags_simps row_simps eval_string)

text \<open>
  An error of the file that first shows at the flush at the end of the cycle leaves no
  trace on the terminal: the row was accepted into the buffer and printed, the result of
  \<^verbatim>\<open>Flush\<close> is dropped, and the file has taken nothing.
\<close>

lemma short_row_WriteString:
  "WriteString fio NewWriter
     (formatProcessOutput no_tables False ''2025-01-02 12:00:00''
        (row ''executing'' ''select 1'') False) =
   (NewWriter\<lparr>wbuf := formatProcessOutput no_tables False ''2025-01-02 12:00:00''
                          (row ''executing'' ''select 1'') False\<rparr>, None)"
  using short_row_fits by (simp add: WriteString_fits NewWriter_simps Available_def)

lemma flush_error_is_silent:
  "cycle no_tables (with_flags False False) False
     (cycle_in None (Inr [row ''executing'' ''select 1'']) disk_full 0) start
   = Next (start\<lparr>console :=
                    [Print (formatProcessOutput no_tables False ''2025-01-02 12:00:00''
                              (row ''executing'' ''select 1'') True)],
                  writer :=
                    NewWriter\<lparr>wbuf := formatProcessOutput no_tables False
                                         ''2025-01-02 12:00:00''
                                         (row ''executing'' ''select 1'') False,
                               wcalls := Suc 0,
                               werr := Some ''no space left on device''\<rparr>,
                  files := [(''load_test-2025-01-02.txt'', [])],
                  sleeps := [1]\<rparr>)"
proof -
  have r: "formatProcessOutput no_tables False ''2025-01-02 12:00:00''
             (row ''executing'' ''select 1'') False \<noteq> []"
    by (simp add: formatProcessOutput_def header_def)
  show ?thesis
    by (simp add: batch_kept start_simps cycle_def report_def process_row_def verbose_line_def
        debug_count_def write_and_print_def short_row_WriteString at_noon_simps Flush_def
        file_Write_def disk_full_def filename_def cycle_in_simps with_flags_simps r
        NewWriter_simps)
       (simp add: with_flags_def start_def NewWriter_def)
qed

section \<open>Errors of the file\<close>




text \<open>
  C3, as the claim states it, fails. A row of more than 4096 bytes is passed to the file
  at once; on a full disk the write returns an error, the loop prints it and goes on to
  the next row with \<^verbatim>\<open>continue\<close>, before the row is printed. The terminal shows the error
  and not the row.
\<close>

theorem failed_write_counterexample:
  "\<not> skipped (with_flags False False) (row ''executing'' long_statement) \<and>
   write_result no_tables False disk_full at_noon (row ''executing'' long_statement) start
     = Some ''no space left on device'' \<and>
   cycle no_tables (with_flags False False) False
     (cycle_in None (Inr [row ''executing'' long_statement]) disk_full 0) start
   = Next (start\<lparr>console := [WriteError ''no space left on device''],
                  writer := NewWriter\<lparr>wcalls := Suc 0,
                                      werr := Some ''no space left on device''\<rparr>,
                  files := [(''load_test-2025-01-02.txt'', [])],
                  sleeps := [1]\<rparr>)"
  by (simp add: long_row_kept long_row_write_fails start_simps cycle_def report_def
      process_row_def verbose_line_def debug_count_def write_and_print_def
      long_row_WriteString Flush_def filename_def cycle_in_simps with_flags_simps)
     (simp add: with_flags_def start_def NewWriter_def)

text \<open>
  C3, amended. For a row that passes the filter and whose buffered write returns an
  error, the terminal gets the diagnostic lines of the row (when asked for) and the error,
  not the row. The rows after it are still processed; the writer keeps its error to the
  end of the cycle, so each of them that passes the filter gets the same error line, and
  none is printed.
\<close>

theorem failed_write:
  assumes "\<not> skipped fl p" and "write_result U nc fio (io i) p st = Some e"
  shows "console (process_row U fl nc fio (io i) st p) =
           console st @
           (if verboseFlag fl
            then [Verbose (queryType U (String (Info p))) (String (State p)) (Time p)
                    (String (Info p))]
            else []) @
           (if debugFlag fl \<and> counts (String (Info p))
            then [DebugQuery (queryCount st + 1) (String (Info p)) (String (State p)) (Time p)]
            else []) @
           [WriteError e] \<and>
         (\<forall>s. Print s \<in> set (console (process_rows U fl nc fio io i st (p # ps)))
                \<longrightarrow> Print s \<in> set (console st)) \<and>
         length (filter (\<lambda>x. x = WriteError e)
                   (console (process_rows U fl nc fio io i st (p # ps)))) =
           length (filter (\<lambda>x. x = WriteError e) (console st)) + 1 +
           length (filter (\<lambda>q. \<not> skipped fl q) ps)"
proof (intro conjI allI impI)
  let ?s = "process_row U fl nc fio (io i) st p"
  have c: "console ?s =
           console st @
           (if verboseFlag fl
            then [Verbose (queryType U (String (Info p))) (String (State p)) (Time p)
                    (String (Info p))]
            else []) @
           (if debugFlag fl \<and> counts (String (Info p))
            then [DebugQuery (queryCount st + 1) (String (Info p)) (String (State p)) (Time p)]
            else []) @
           [WriteError e]"
    using assms by (simp add: process_row_console)
  then show "console ?s =
           console st @
           (if verboseFlag fl
            then [Verbose (queryType U (String (Info p))) (String (State p)) (Time p)
                    (String (Info p))]
            else []) @
           (if debugFlag fl \<and> counts (String (Info p))
            then [DebugQuery (queryCount st + 1) (String (Info p)) (String (State p)) (Time p)]
            else []) @
           [WriteError e]" .
  from assms have w: "werr (writer ?s) = Some e"
    by (simp add: process_row_werr)
  {
    fix s
    assume "Print s \<in> set (console (process_rows U fl nc fio io i st (p # ps)))"
    then have "Print s \<in> set (console ?s)"
      using process_rows_sticky_prints [OF w, of s U fl nc fio io "Suc i" ps] by simp
    then show "Print s \<in> set (console st)"
      by (simp add: c)
  }
  have "length (filter (\<lambda>x. x = WriteError e) (console ?s)) =
        length (filter (\<lambda>x. x = WriteError e) (console st)) + 1"
    by (simp add: c)
  with process_rows_sticky_errors [OF w, of U fl nc fio io "Suc i" ps]
  show "length (filter (\<lambda>x. x = WriteError e)
                   (console (process_rows U fl nc fio io i st (p # ps)))) =
           length (filter (\<lambda>x. x = WriteError e) (console st)) + 1 +
           length (filter (\<lambda>q. \<not> skipped fl q) ps)"
    by simp
qed

theorem failed_write_witness:
  "\<not> skipped (with_flags False False) (row ''executing'' long_statement) \<and>
   write_result no_tables False disk_full at_noon (row ''executing'' long_statement) start
     = Some ''no space left on device'' \<and>
   console (process_row no_tables (with_flags False False) False disk_full at_noon start
              (row ''executing'' long_statement))
     = [WriteError ''no space left on device''] \<and>
   length (filter (\<lambda>x. x = WriteError ''no space left on device'')
             (console (process_rows no_tables (with_flags False False) False disk_full
                         (\<lambda>i. at_noon) 0 start
                         [row ''executing'' long_statement, row ''executing'' ''select 1''])))
     = 2 \<and>
   Print (formatProcessOutput no_tables False ''2025-01-02 12:00:00''
            (row ''executing'' ''select 1'') True)
     \<notin> set (console (process_rows no_tables (with_flags False False) False disk_full
                        (\<lambda>i. at_noon) 0 start
                        [row ''executing'' long_statement, row ''executing'' ''select 1'']))"
proof -
  let ?F = "with_flags False False"
  let ?p = "row ''executing'' long_statement"
  let ?q = "row ''executing'' ''select 1''"
  let ?e = "''no space left on device''"
  have k: "\<not> skipped ?F ?p" by (rule long_row_kept)
  have w: "write_result no_tables False disk_full at_noon ?p start = Some ?e"
    by (simp add: long_row_write_fails start_simps)
  have n: "length (filter (\<lambda>q. \<not> skipped ?F q) [?q]) = 1"
    by (simp add: batch_kept)
  note f = failed_write [of ?F ?p no_tables False disk_full "\<lambda>i. at_noon" 0 start ?e "[?q]",
                         OF k w]
  from f have 1: "console (process_row no_tables ?F False disk_full at_noon start ?p)
                    = [WriteError ?e]"
    by (simp add: with_flags_simps start_simps)
  from f n have 2: "length (filter (\<lambda>x. x = WriteError ?e)
             (console (process_rows no_tables ?F False disk_full (\<lambda>i. at_noon) 0 start
                         [?p, ?q]))) = 2"
    by (simp add: start_simps)
  from f have 3: "Print (formatProcessOutput no_tables False ''2025-01-02 12:00:00'' ?q True)
     \<notin> set (console (process_rows no_tables ?F False disk_full (\<lambda>i. at_noon) 0 start
                        [?p, ?q]))"
    by (auto simp: start_simps)
  from k w 1 2 3 show ?thesis
    by (intro conjI)
qed

section \<open>Errors of the query\<close>

text \<open>
  C4. When the query fails the error is printed, nothing is written, and the loop goes on
  to the next iteration with \<^verbatim>\<open>continue\<close>: the sleep at the end of the body is not reached,
  so the next query follows at once. Two failing cycles in a row leave two error lines
  and no sleep; a cycle whose query succeeds, even with no rows, sleeps.
\<close>

theorem poll_error_skips_sleep:
  "cycle no_tables (with_flags False False) False
     (cycle_in None (Inl ''connection refused'') (\<lambda>i. None) 0) start
   = Next (start\<lparr>console := [PollError ''connection refused'']\<rparr>) \<and>
   cycles no_tables (with_flags False False) False
     [cycle_in None (Inl ''connection refused'') (\<lambda>i. None) 0,
      cycle_in None (Inl ''connection refused'') (\<lambda>i. None) 0] start
   = Next (start\<lparr>console := [PollError ''connection refused'',
                               PollError ''connection refused'']\<rparr>) \<and>
   sleeps (start\<lparr>console := [PollError ''connection refused'',
                              PollError ''connection refused'']\<rparr>) = [] \<and>
   cycle no_tables (with_flags False False) False (cycle_in None (Inr []) (\<lambda>i. None) 0) start
   = Next (start\<lparr>files := [(''load_test-2025-01-02.txt'', [])], sleeps := [1]\<rparr>)"
  by (simp add: cycle_def report_def filename_def cycle_in_simps start_def with_flags_def
      Flush_def NewWriter_def)

section \<open>The counter of the debug mode\<close>

text \<open>
  C9. In debug mode a row with the statement SELECT 1, which the keyword tests of the
  renderer take for a select, passes the filter and is not counted: the test of the
  counter is on the statement as it is, and only select 1 in lower case is counted. And a
  cycle whose query fails six seconds after the last report makes no report and leaves
  the counter as it was, where a cycle whose query succeeds reports and resets.
\<close>

theorem counter_is_case_sensitive:
  "classify no_tables ''SELECT 1'' = CatSelect \<and>
   \<not> skipped (with_flags False True) (row ''executing'' ''SELECT 1'') \<and>
   \<not> counts ''SELECT 1'' \<and>
   queryCount (process_rows no_tables (with_flags False True) False (\<lambda>k. None) (\<lambda>i. at_noon) 0
                 start [row ''executing'' ''SELECT 1'']) = 0 \<and>
   queryCount (process_rows no_tables (with_flags False True) False (\<lambda>k. None) (\<lambda>i. at_noon) 0
                 start [row ''executing'' ''select 1'']) = 1 \<and>
   cycle no_tables (with_flags False True) False
     (cycle_in None (Inl ''connection refused'') (\<lambda>k. None) 6000000000)
     (start\<lparr>queryCount := 2\<rparr>)
   = Next (start\<lparr>queryCount := 2, console := [PollError ''connection refused'']\<rparr>) \<and>
   cycle no_tables (with_flags False True) False
     (cycle_in None (Inr []) (\<lambda>k. None) 6000000000) (start\<lparr>queryCount := 2\<rparr>)
   = Next (start\<lparr>queryCount := 0, lastCheck := 6000000000, console := [Stats 2],
                  files := [(''load_test-2025-01-02.txt'', [])], sleeps := [1]\<rparr>)"
proof -
  have 1: "classify no_tables ''SELECT 1'' = CatSelect"
    by (simp add: classify_def eval_string)
  have 2: "\<not> skipped (with_flags False True) (row ''executing'' ''SELECT 1'')"
          "\<not> skipped (with_flags False True) (row ''executing'' ''select 1'')"
    by (simp_all add: skipped_def with_flags_simps)
  have 3: "\<not> counts ''SELECT 1''" "counts ''select 1''"
    by (simp_all add: counts_def eval_string)
  from 2 3 have 4: "queryCount (process_rows no_tables (with_flags False True) False (\<lambda>k. None)
                 (\<lambda>i. at_noon) 0 start [row ''executing'' ''SELECT 1'']) = 0"
    "queryCount (process_rows no_tables (with_flags False True) False (\<lambda>k. None)
                 (\<lambda>i. at_noon) 0 start [row ''executing'' ''select 1'']) = 1"
    by (simp_all add: process_row_queryCount with_flags_simps row_simps start_simps)
  have 5: "cycle no_tables (with_flags False True) False
     (cycle_in None (Inl ''connection refused'') (\<lambda>k. None) 6000000000)
     (start\<lparr>queryCount := 2\<rparr>)
   = Next (start\<lparr>queryCount := 2, console := [PollError ''connection refused'']\<rparr>)"
    by (simp add: cycle_def cycle_in_simps start_def)
  have 6: "cycle no_tables (with_flags False True) False
     (cycle_in None (Inr []) (\<lambda>k. None) 6000000000) (start\<lparr>queryCount := 2\<rparr>)
   = Next (start\<lparr>queryCount := 0, lastCheck := 6000000000, console := [Stats 2],
                  files := [(''load_test-2025-01-02.txt'', [])], sleeps := [1]\<rparr>)"
    by (simp add: cycle_def report_def filename_def cycle_in_simps start_def with_flags_def
        Flush_def NewWriter_def)
  from 1 2(1) 3(1) 4 5 6 show ?thesis
    by (intro conjI)
qed

end
